theory Spec2Isabelle
  imports Complex_Main "HOL-Library.Word"
begin

section \<open>Strings\<close>

text \<open>
  A JavaScript string is a sequence of UTF-16 code units. \<open>js\<close> embeds an ASCII
  literal; code units beyond ASCII are written as numbers.
\<close>

type_synonym js_string = "16 word list"

definition js :: "string \<Rightarrow> js_string" where
  "js cs = map (\<lambda>c. of_nat (of_char c)) cs"

text \<open>
  \<^verbatim>\<open>String.prototype.trim\<close> removes leading and trailing WhiteSpace and LineTerminator
  code points (ECMAScript): TAB, VT, FF, SP, NBSP, ZWNBSP, the category Zs, and LF, CR,
  LS, PS. All of them are single code units.
\<close>

definition isWhiteSpace :: "16 word \<Rightarrow> bool" where
  "isWhiteSpace c =
     (c \<in> {0x9, 0xA, 0xB, 0xC, 0xD, 0x20, 0xA0, 0x1680, 0x2028, 0x2029, 0x202F, 0x205F,
            0x3000, 0xFEFF}
      \<or> (0x2000 \<le> c \<and> c \<le> 0x200A))"

definition trim :: "js_string \<Rightarrow> js_string" where
  "trim s = rev (dropWhile isWhiteSpace (rev (dropWhile isWhiteSpace s)))"

section \<open>Audio helper functions\<close>

datatype js_error = InvalidCharacterError | RangeError | NotSupportedError

subsection \<open>The platform's \<open>atob\<close>\<close>

text \<open>
  \<open>atob\<close> is the browser's, not the repository's. It is written out after the
  forgiving-base64 decode of the WHATWG standard so that \<open>decode\<close> can be run on a
  concrete payload: ASCII whitespace is removed, one or two trailing \<open>=\<close> are removed
  when the length is a multiple of four, a remaining length of 1 modulo 4 or a character
  outside the alphabet raises InvalidCharacterError, and the sextets are regrouped into
  bytes. The result is a binary string: one code unit below 256 per byte.
\<close>

definition b64_whitespace :: "16 word \<Rightarrow> bool" where
  "b64_whitespace c = (c \<in> {0x9, 0xA, 0xC, 0xD, 0x20})"

definition b64_value :: "16 word \<Rightarrow> nat option" where
  "b64_value c =
     (if 0x41 \<le> c \<and> c \<le> 0x5A then Some (unat c - 0x41)
      else if 0x61 \<le> c \<and> c \<le> 0x7A then Some (unat c - 0x61 + 26)
      else if 0x30 \<le> c \<and> c \<le> 0x39 then Some (unat c - 0x30 + 52)
      else if c = 0x2B then Some 62
      else if c = 0x2F then Some 63
      else None)"

definition b64_strip_padding :: "js_string \<Rightarrow> js_string" where
  "b64_strip_padding d =
     (if length d mod 4 = 0 \<and> d \<noteq> [] \<and> last d = 0x3D then
        (if butlast d \<noteq> [] \<and> last (butlast d) = 0x3D then butlast (butlast d)
         else butlast d)
      else d)"

fun b64_sextets :: "js_string \<Rightarrow> nat list option" where
  "b64_sextets [] = Some []"
| "b64_sextets (c # cs) =
     (case b64_value c of
        None \<Rightarrow> None
      | Some v \<Rightarrow> (case b64_sextets cs of None \<Rightarrow> None | Some vs \<Rightarrow> Some (v # vs)))"

fun b64_bytes :: "nat list \<Rightarrow> 16 word list" where
  "b64_bytes (a # b # c # d # rest) =
     (let n = a * 262144 + b * 4096 + c * 64 + d
      in of_nat (n div 65536) # of_nat (n div 256 mod 256) # of_nat (n mod 256) # b64_bytes rest)"
| "b64_bytes [a, b, c] =
     (let n = (a * 4096 + b * 64 + c) div 4
      in [of_nat (n div 256), of_nat (n mod 256)])"
| "b64_bytes [a, b] = [of_nat ((a * 64 + b) div 16)]"
| "b64_bytes _ = []"

definition atob :: "js_string \<Rightarrow> js_error + js_string" where
  "atob base64 =
     (let d = b64_strip_padding (filter (\<lambda>c. \<not> b64_whitespace c) base64)
      in if length d mod 4 = 1 then Inl InvalidCharacterError
         else (case b64_sextets d of
                 None \<Rightarrow> Inl InvalidCharacterError
               | Some vs \<Rightarrow> Inr (b64_bytes vs)))"

subsection \<open>\<open>decode\<close>\<close>

text \<open>
  \<^verbatim>\<open>for (let i = 0; i < len; i++) bytes[i] = binaryString.charCodeAt(i);\<close>
  A store into a \<open>Uint8Array\<close> keeps the low eight bits of the value.
\<close>

function decode_loop :: "js_string \<Rightarrow> nat \<Rightarrow> nat \<Rightarrow> 8 word list \<Rightarrow> 8 word list" where
  "decode_loop binaryString len i bytes =
     (if i < len then decode_loop binaryString len (i + 1) (bytes[i := ucast (binaryString ! i)])
      else bytes)"
  by pat_completeness auto
termination
  by (relation "measure (\<lambda>(binaryString, len, i, bytes). len - i)") auto

definition decode :: "js_string \<Rightarrow> js_error + 8 word list" where
  "decode base64 =
     (case atob base64 of
        Inl e \<Rightarrow> Inl e
      | Inr binaryString \<Rightarrow>
          (let len = length binaryString;
               bytes = replicate len 0
           in Inr (decode_loop binaryString len 0 bytes)))"

subsection \<open>\<open>decodeAudioData\<close>\<close>

text \<open>
  \<open>new Int16Array(data.buffer)\<close> views the bytes as 16-bit signed integers in the
  platform's byte order, little-endian on every platform the page runs on, and raises a
  RangeError when the byte length is odd. \<open>sint\<close> reads an element as the signed value.
\<close>

fun int16_elements :: "8 word list \<Rightarrow> 16 word list" where
  "int16_elements (lo # hi # rest) = word_cat hi lo # int16_elements rest"
| "int16_elements _ = []"

definition Int16Array :: "8 word list \<Rightarrow> js_error + 16 word list" where
  "Int16Array buffer =
     (if length buffer mod 2 \<noteq> 0 then Inl RangeError else Inr (int16_elements buffer))"

text \<open>
  An \<open>AudioBuffer\<close> is its list of channels, each a \<open>Float32Array\<close> of samples, all zero
  when \<open>createBuffer\<close> returns it. A sample is a \<open>real\<close>: a 16-bit integer divided by
  \<open>32768 = 2^15\<close> has at most 16 significant bits, so the JavaScript division and the
  store into 32-bit floats are both exact.

  \<open>createBuffer\<close> is the platform's (Web Audio): it raises a NotSupportedError when the
  number of channels, the length in frames or the sample rate is zero, and so for a buffer
  of no frames. Its upper limits (an implementation may refuse more than 32 channels or a
  rate outside 8000 to 96000 Hz) are not reached by the one call, which asks for one
  channel at 24000 Hz, and are left out.
\<close>

type_synonym AudioBuffer = "real list list"

definition createBuffer :: "nat \<Rightarrow> nat \<Rightarrow> nat \<Rightarrow> js_error + AudioBuffer" where
  "createBuffer numChannels frameCount sampleRate =
     (if numChannels = 0 \<or> frameCount = 0 \<or> sampleRate = 0 then Inl NotSupportedError
      else Inr (replicate numChannels (replicate frameCount 0)))"

text \<open>
  \<^verbatim>\<open>for (let i = 0; i < frameCount; i++)
    channelData[i] = dataInt16[i * numChannels + channel] / 32768.0;\<close>
\<close>

function frame_loop :: "16 word list \<Rightarrow> nat \<Rightarrow> nat \<Rightarrow> nat \<Rightarrow> nat \<Rightarrow> real list \<Rightarrow> real list" where
  "frame_loop dataInt16 numChannels channel frameCount i channelData =
     (if i < frameCount then
        frame_loop dataInt16 numChannels channel frameCount (i + 1)
          (channelData[i := real_of_int (sint (dataInt16 ! (i * numChannels + channel))) / 32768])
      else channelData)"
  by pat_completeness auto
termination
  by (relation "measure (\<lambda>(dataInt16, numChannels, channel, frameCount, i, channelData). frameCount - i)") auto

text \<open>
  \<^verbatim>\<open>for (let channel = 0; channel < numChannels; channel++) { ... }\<close>
  \<open>getChannelData\<close> returns the channel's own array, so the inner loop's stores are
  stores into the buffer.
\<close>

function channel_loop :: "16 word list \<Rightarrow> nat \<Rightarrow> nat \<Rightarrow> nat \<Rightarrow> AudioBuffer \<Rightarrow> AudioBuffer" where
  "channel_loop dataInt16 numChannels frameCount channel buffer =
     (if channel < numChannels then
        channel_loop dataInt16 numChannels frameCount (channel + 1)
          (buffer[channel := frame_loop dataInt16 numChannels channel frameCount 0 (buffer ! channel)])
      else buffer)"
  by pat_completeness auto
termination
  by (relation "measure (\<lambda>(dataInt16, numChannels, frameCount, channel, buffer). numChannels - channel)") auto

text \<open>
  \<open>frameCount\<close> is \<open>dataInt16.length / numChannels\<close>; the one call passes a single
  channel, where the quotient is the length itself. An exception of \<open>createBuffer\<close>
  rejects the promise.
\<close>

definition decodeAudioData :: "8 word list \<Rightarrow> nat \<Rightarrow> nat \<Rightarrow> js_error + AudioBuffer" where
  "decodeAudioData data sampleRate numChannels =
     (case Int16Array data of
        Inl e \<Rightarrow> Inl e
      | Inr dataInt16 \<Rightarrow>
          (let frameCount = length dataInt16 div numChannels
           in case createBuffer numChannels frameCount sampleRate of
                Inl e \<Rightarrow> Inl e
              | Inr buffer \<Rightarrow> Inr (channel_loop dataInt16 numChannels frameCount 0 buffer)))"

text \<open>
  The reference de-interleave, computed on integers: sample \<open>i\<close> of a little-endian
  payload is the unsigned value of bytes \<open>2i\<close> and \<open>2i+1\<close>, read as two's complement,
  over 32768.
\<close>

definition reference_sample :: "8 word list \<Rightarrow> nat \<Rightarrow> real" where
  "reference_sample payload i =
     (let u = int (unat (payload ! (2 * i))) + 256 * int (unat (payload ! (2 * i + 1)));
          v = (if u < 32768 then u else u - 65536)
      in real_of_int v / 32768)"

section \<open>Type definitions\<close>

datatype role = User | Model | System

record ChatMessage =
  role :: role
  content :: js_string

text \<open>A tab's icon is markup only and is left out.\<close>

record TabInfo =
  id' :: js_string
  title :: js_string

definition tabsData :: "TabInfo list" where
  "tabsData =
     [\<lparr>id' = js ''implications'', title = [0xBF] @ js ''Qu'' @ [0xE9] @ js '' implica?''\<rparr>,
      \<lparr>id' = js ''thermodynamics'', title = js ''Perspectiva Termodin'' @ [0xE1] @ js ''mica''\<rparr>,
      \<lparr>id' = js ''chat'', title = js ''Chatea con un experto''\<rparr>]"

section \<open>The component's state\<close>

text \<open>
  The collaborators are opaque handles: the component only tests them against \<open>null\<close>.
  The speech recogniser carries what its \<open>onend\<close> closure captured: the handlers are
  installed once, by the mount effect (dependency list \<open>[]\<close>), so \<open>onend\<close> reads the
  \<open>userInput\<close> of the render that ran the effect.
\<close>

datatype Chat = ChatSession
datatype GoogleGenAI = GenAIClient
datatype AudioContext = AudioContext24000

record SpeechRecognition =
  continuous :: bool
  interimResults :: bool
  lang :: js_string
  onend_userInput :: js_string

text \<open>
  The \<open>useState\<close> cells and the \<open>useRef\<close> cells the handlers read. In the spec's words:
  \<open>isLoading\<close> is isWaitingForReply, \<open>isListening\<close> is isCapturingSpeech, \<open>isSpeaking\<close> is
  isPlayingAudio, \<open>userInput\<close> is the pending input text, \<open>chatHistory\<close> the transcript.
\<close>

record card_state =
  activeTab :: js_string
  chat :: "Chat option"
  chatHistory :: "ChatMessage list"
  userInput :: js_string
  isLoading :: bool
  isListening :: bool
  isSpeaking :: bool
  aiRef :: "GoogleGenAI option"
  speechRecognitionRef :: "SpeechRecognition option"
  audioContextRef :: "AudioContext option"

definition initial_state :: card_state where
  "initial_state =
     \<lparr>activeTab = js ''implications'', chat = None, chatHistory = [], userInput = [],
      isLoading = False, isListening = False, isSpeaking = False,
      aiRef = None, speechRecognitionRef = None, audioContextRef = None\<rparr>"

section \<open>Actions\<close>

text \<open>
  A handler is the list of what it does, in program order: the state updates it queues
  and the calls it makes to its collaborators. \<open>AppendChatHistory m\<close> is
  \<open>setChatHistory(prev => [...prev, m])\<close> and \<open>AppendUserInput t\<close> is
  \<open>setUserInput(prev => prev + t)\<close>; the other setters store a value.
\<close>

datatype action =
    SetActiveTab js_string
  | SetChat Chat
  | SetChatHistory "ChatMessage list"
  | AppendChatHistory ChatMessage
  | SetUserInput js_string
  | AppendUserInput js_string
  | SetIsLoading bool
  | SetIsListening bool
  | SetIsSpeaking bool
  | SetAiRef GoogleGenAI
  | SetSpeechRecognitionRef SpeechRecognition
  | SetAudioContextRef AudioContext
  | PreventDefault
  | ConsoleError
  | SendMessage js_string
  | GenerateContent js_string
  | SourceStart AudioBuffer
  | RequestSubmit
  | RecognitionStart
  | RecognitionStop

fun apply_action :: "action \<Rightarrow> card_state \<Rightarrow> card_state" where
  "apply_action (SetActiveTab t) s = s\<lparr>activeTab := t\<rparr>"
| "apply_action (SetChat c) s = s\<lparr>chat := Some c\<rparr>"
| "apply_action (SetChatHistory h) s = s\<lparr>chatHistory := h\<rparr>"
| "apply_action (AppendChatHistory m) s = s\<lparr>chatHistory := chatHistory s @ [m]\<rparr>"
| "apply_action (SetUserInput v) s = s\<lparr>userInput := v\<rparr>"
| "apply_action (AppendUserInput v) s = s\<lparr>userInput := userInput s @ v\<rparr>"
| "apply_action (SetIsLoading b) s = s\<lparr>isLoading := b\<rparr>"
| "apply_action (SetIsListening b) s = s\<lparr>isListening := b\<rparr>"
| "apply_action (SetIsSpeaking b) s = s\<lparr>isSpeaking := b\<rparr>"
| "apply_action (SetAiRef a) s = s\<lparr>aiRef := Some a\<rparr>"
| "apply_action (SetSpeechRecognitionRef r) s = s\<lparr>speechRecognitionRef := Some r\<rparr>"
| "apply_action (SetAudioContextRef c) s = s\<lparr>audioContextRef := Some c\<rparr>"
| "apply_action _ s = s"

text \<open>The state after a handler, and every state it passes through.\<close>

definition run :: "action list \<Rightarrow> card_state \<Rightarrow> card_state" where
  "run acts s = fold apply_action acts s"

fun trace :: "action list \<Rightarrow> card_state \<Rightarrow> card_state list" where
  "trace [] s = [s]"
| "trace (a # acts) s = s # trace acts (apply_action a s)"

section \<open>Initialisation\<close>

definition greeting :: js_string where
  "greeting =
     [0xA1] @ js ''Hola! Soy tu asistente de investigaci'' @ [0xF3] @
     js ''n, ejercita tu pensamiento cientifico. Esta es tu oportunidad de profundizar hacia donde la curiosidad te lleve. '' @
     [0xA1] @ js ''Sorpr'' @ [0xE9] @ js ''ndete de cu'' @ [0xE1] @
     js ''nto puedes aprender y descubrir! '' @ [0xBF] @ js ''Qu'' @ [0xE9] @
     js '' te gustar'' @ [0xED] @ js ''a saber?''"

definition init_error_text :: js_string where
  "init_error_text =
     js ''No se pudo inicializar el asistente de IA. Verifica la configuraci'' @ [0xF3] @ js ''n.''"

text \<open>
  What the page's environment decides during \<open>init\<close>: whether a constructor inside the
  \<open>try\<close> throws, and whether the browser has a speech recogniser at all.
\<close>

record platform =
  genai_throws :: bool
  chats_create_throws :: bool
  speech_recognition_available :: bool
  speech_recognition_throws :: bool
  audio_context_throws :: bool

definition init_catch :: "action list" where
  "init_catch = [ConsoleError, SetChatHistory [\<lparr>role = System, content = init_error_text\<rparr>]]"

text \<open>
  \<open>init p s\<close>: the mount effect under platform \<open>p\<close>, run after the render of state \<open>s\<close>.
  An exception leaves the \<open>try\<close> for the \<open>catch\<close>, with the updates queued so far kept.
\<close>

definition init :: "platform \<Rightarrow> card_state \<Rightarrow> action list" where
  "init p s =
     (if genai_throws p then init_catch
      else SetAiRef GenAIClient #
        (if chats_create_throws p then init_catch
         else [SetChat ChatSession, SetChatHistory [\<lparr>role = Model, content = greeting\<rparr>]] @
           (if speech_recognition_available p \<and> speech_recognition_throws p then init_catch
            else
              (if speech_recognition_available p then
                 [SetSpeechRecognitionRef
                    \<lparr>continuous = True, interimResults = True, lang = js ''es-ES'',
                     onend_userInput = userInput s\<rparr>]
               else []) @
              (if audio_context_throws p then init_catch
               else [SetAudioContextRef AudioContext24000]))))"

definition mount :: "platform \<Rightarrow> card_state" where
  "mount p = run (init p initial_state) initial_state"

definition init_succeeds :: "platform \<Rightarrow> bool" where
  "init_succeeds p =
     (\<not> genai_throws p \<and> \<not> chats_create_throws p \<and>
      \<not> (speech_recognition_available p \<and> speech_recognition_throws p) \<and>
      \<not> audio_context_throws p)"

section \<open>Speech capture\<close>

text \<open>
  \<^verbatim>\<open>for (let i = event.resultIndex; i < event.results.length; ++i)
    if (event.results[i].isFinal) finalTranscript += event.results[i][0].transcript;\<close>
  A result is its \<open>isFinal\<close> flag and the transcript of its first alternative.
\<close>

record SpeechRecognitionEvent =
  resultIndex :: nat
  results :: "(bool \<times> js_string) list"

function onresult_loop :: "(bool \<times> js_string) list \<Rightarrow> nat \<Rightarrow> js_string \<Rightarrow> js_string" where
  "onresult_loop rs i finalTranscript =
     (if i < length rs then
        onresult_loop rs (i + 1)
          (if fst (rs ! i) then finalTranscript @ snd (rs ! i) else finalTranscript)
      else finalTranscript)"
  by pat_completeness auto
termination
  by (relation "measure (\<lambda>(rs, i, finalTranscript). length rs - i)") auto

definition recognition_onresult :: "SpeechRecognitionEvent \<Rightarrow> action list" where
  "recognition_onresult ev =
     (let finalTranscript = onresult_loop (results ev) (resultIndex ev) []
      in if finalTranscript \<noteq> [] then [AppendUserInput finalTranscript] else [])"

section \<open>Rendering\<close>

datatype pane = ImplicationsContent | ThermodynamicsContent | ChatInterface

text \<open>
  The children of the content pane: each of the three conditional expressions
  contributes its component when it holds, nothing otherwise.
\<close>

definition content_pane :: "card_state \<Rightarrow> pane list" where
  "content_pane s =
     (if activeTab s = js ''implications'' then [ImplicationsContent] else []) @
     (if activeTab s = js ''thermodynamics'' then [ThermodynamicsContent] else []) @
     (if activeTab s = js ''chat'' then [ChatInterface] else [])"

text \<open>The tab buttons rendered with \<open>aria-selected\<close> true.\<close>

definition selected_tabs :: "card_state \<Rightarrow> TabInfo list" where
  "selected_tabs s = filter (\<lambda>tab. activeTab s = id' tab) tabsData"

text \<open>
  The form, and so \<open>formRef.current\<close>, exists while the chat pane is rendered. The text
  input and the microphone button carry the same \<open>disabled\<close> expression.
\<close>

definition formRef_current :: "card_state \<Rightarrow> bool" where
  "formRef_current s = (ChatInterface \<in> set (content_pane s))"

definition input_disabled :: "card_state \<Rightarrow> bool" where
  "input_disabled s = (isLoading s \<or> chat s = None \<or> isSpeaking s)"

text \<open>
  \<open>recognition.onend\<close>, with the recogniser \<open>r\<close> that holds its closure: the test reads
  the captured \<open>userInput\<close>, the form is looked up when the handler runs.
\<close>

definition recognition_onend :: "SpeechRecognition \<Rightarrow> card_state \<Rightarrow> action list" where
  "recognition_onend r s =
     SetIsListening False #
     (if trim (onend_userInput r) \<noteq> [] then
        (if formRef_current s then [RequestSubmit] else [])
      else [])"

definition handleMicClick :: "card_state \<Rightarrow> action list" where
  "handleMicClick s =
     (case speechRecognitionRef s of
        None \<Rightarrow> []
      | Some r \<Rightarrow>
          if isListening s then [RecognitionStop]
          else [SetUserInput [], RecognitionStart, SetIsListening True])"

section \<open>Conversation\<close>

text \<open>
  What the two requests to the hosted service come back with: the promise is rejected,
  or it resolves. A resolved synthesis response may hold no audio data
  (\<open>response.candidates?.[0]?.content?.parts?.[0]?.inlineData?.data\<close> is undefined).
\<close>

datatype chat_result = ChatRejected | ChatResponse js_string

datatype synth_result = SynthRejected | SynthResponse "js_string option"

definition send_error_text :: js_string where
  "send_error_text =
     js ''Lo siento, ocurri'' @ [0xF3] @ js '' un error al procesar tu solicitud.''"

text \<open>
  \<open>playAudioResponse\<close>. The body after \<open>setIsSpeaking(true)\<close> is one \<open>try\<close>: a rejected
  request and a payload that does not decode both end in the \<open>catch\<close>. An empty string
  is falsy, so \<open>if(base64Audio)\<close> takes the \<open>else\<close> branch for it. After \<open>source.start()\<close>
  the flag is cleared by the source's \<open>onended\<close> callback, not here.
\<close>

definition playAudioResponse :: "synth_result \<Rightarrow> card_state \<Rightarrow> js_string \<Rightarrow> action list" where
  "playAudioResponse synth s txt =
     (if aiRef s = None \<or> audioContextRef s = None then []
      else [SetIsSpeaking True, GenerateContent txt] @
        (case synth of
           SynthRejected \<Rightarrow> [ConsoleError, SetIsSpeaking False]
         | SynthResponse base64Audio \<Rightarrow>
             (case base64Audio of
                None \<Rightarrow> [SetIsSpeaking False]
              | Some b64 \<Rightarrow>
                  if b64 = [] then [SetIsSpeaking False]
                  else
                    (case decode b64 of
                       Inl e \<Rightarrow> [ConsoleError, SetIsSpeaking False]
                     | Inr bytes \<Rightarrow>
                         (case decodeAudioData bytes 24000 1 of
                            Inl e \<Rightarrow> [ConsoleError, SetIsSpeaking False]
                          | Inr audioBuffer \<Rightarrow> [SourceStart audioBuffer])))))"

text \<open>
  \<open>handleSendMessage\<close>, called with the state \<open>s\<close> of the render whose closure it is and
  with what the two requests will come back with. \<open>playAudioResponse\<close> is awaited inside
  the \<open>try\<close>; the \<open>finally\<close> runs once it has returned.
\<close>

definition handleSendMessage :: "chat_result \<Rightarrow> synth_result \<Rightarrow> card_state \<Rightarrow> action list" where
  "handleSendMessage reply synth s =
     PreventDefault #
     (if trim (userInput s) = [] \<or> isLoading s \<or> chat s = None \<or> isSpeaking s then []
      else
        (let userMessage = \<lparr>role = User, content = userInput s\<rparr>;
             currentInput = userInput s
         in [AppendChatHistory userMessage, SetUserInput [], SetIsLoading True,
             SendMessage currentInput] @
            (case reply of
               ChatResponse response_text \<Rightarrow>
                 AppendChatHistory \<lparr>role = Model, content = response_text\<rparr> #
                 playAudioResponse synth s response_text
             | ChatRejected \<Rightarrow>
                 [ConsoleError, AppendChatHistory \<lparr>role = System, content = send_error_text\<rparr>]) @
            [SetIsLoading False]))"

section \<open>Events\<close>

text \<open>
  What can happen to a mounted card. A submission, and the end of a capture (which may
  submit), carry what the requests would come back with.
\<close>

datatype event =
    TabClick TabInfo
  | InputChange js_string
  | FormSubmit chat_result synth_result
  | MicClick
  | RecognitionResult SpeechRecognitionEvent
  | RecognitionEnd chat_result synth_result
  | SourceEnded

text \<open>
  The handler each event reaches. Only the buttons of \<open>tabsData\<close> exist; the input and
  the microphone button exist with the form and take no event while disabled; the
  recogniser's callbacks exist once it has been created; \<open>requestSubmit()\<close> raises the
  form's submit event, which \<open>handleSendMessage\<close> handles.
\<close>

definition dispatch :: "event \<Rightarrow> card_state \<Rightarrow> action list" where
  "dispatch ev s =
     (case ev of
        TabClick tab \<Rightarrow> if tab \<in> set tabsData then [SetActiveTab (id' tab)] else []
      | InputChange v \<Rightarrow>
          if formRef_current s \<and> \<not> input_disabled s then [SetUserInput v] else []
      | FormSubmit reply synth \<Rightarrow>
          if formRef_current s then handleSendMessage reply synth s else []
      | MicClick \<Rightarrow>
          if formRef_current s \<and> \<not> input_disabled s then handleMicClick s else []
      | RecognitionResult e \<Rightarrow>
          (case speechRecognitionRef s of None \<Rightarrow> [] | Some r \<Rightarrow> recognition_onresult e)
      | RecognitionEnd reply synth \<Rightarrow>
          (case speechRecognitionRef s of
             None \<Rightarrow> []
           | Some r \<Rightarrow>
               recognition_onend r s @
               (if RequestSubmit \<in> set (recognition_onend r s)
                then handleSendMessage reply synth s else []))
      | SourceEnded \<Rightarrow> [SetIsSpeaking False])"

definition step :: "card_state \<Rightarrow> event \<Rightarrow> card_state" where
  "step s ev = run (dispatch ev s) s"

definition exec :: "event list \<Rightarrow> card_state \<Rightarrow> card_state" where
  "exec evs s = foldl step s evs"

text \<open>Everything done over a sequence of events, in order.\<close>

fun exec_log :: "event list \<Rightarrow> card_state \<Rightarrow> action list" where
  "exec_log [] s = []"
| "exec_log (ev # evs) s = dispatch ev s @ exec_log evs (step s ev)"

text \<open>What a handler asked of its collaborators.\<close>

fun sent_messages :: "action list \<Rightarrow> js_string list" where
  "sent_messages [] = []"
| "sent_messages (SendMessage m # acts) = m # sent_messages acts"
| "sent_messages (a # acts) = sent_messages acts"

fun sources_started :: "action list \<Rightarrow> AudioBuffer list" where
  "sources_started [] = []"
| "sources_started (SourceStart b # acts) = b # sources_started acts"
| "sources_started (a # acts) = sources_started acts"

subsection \<open>A concrete session\<close>

text \<open>
  A browser where every collaborator initialises, and the state after the user has
  opened the chat tab and typed \<open>v\<close>.
\<close>

definition working_platform :: platform where
  "working_platform =
     \<lparr>genai_throws = False, chats_create_throws = False, speech_recognition_available = True,
      speech_recognition_throws = False, audio_context_throws = False\<rparr>"

definition chat_tab :: TabInfo where
  "chat_tab = tabsData ! 2"

definition typed :: "js_string \<Rightarrow> card_state" where
  "typed v = exec [TabClick chat_tab, InputChange v] (mount working_platform)"

text \<open>A browser where the client's constructor throws (no API key), and the card there.\<close>

definition keyless_platform :: platform where
  "keyless_platform =
     \<lparr>genai_throws = True, chats_create_throws = False, speech_recognition_available = True,
      speech_recognition_throws = False, audio_context_throws = False\<rparr>"

text \<open>
  The keyless card showing the chat tab with \<open>hola\<close> in the input. The input is
  disabled while there is no chat session, so the text is put into the state directly.
\<close>

definition keyless_with_text :: card_state where
  "keyless_with_text = (exec [TabClick chat_tab] (mount keyless_platform))\<lparr>userInput := js ''hola''\<rparr>"

text \<open>The turns a handler appends.\<close>

fun appended :: "action list \<Rightarrow> ChatMessage list" where
  "appended [] = []"
| "appended (AppendChatHistory m # acts) = m # appended acts"
| "appended (a # acts) = appended acts"

text \<open>
  A dictation: the chat tab is opened, the microphone clicked, the recogniser finalises
  \<open>hola \<close> and then \<open>mundo\<close> (the result list grows, \<open>resultIndex\<close> points at the new
  result), and the capture ends.
\<close>

definition dictation :: "event list" where
  "dictation =
     [TabClick chat_tab, MicClick,
      RecognitionResult \<lparr>resultIndex = 0, results = [(True, js ''hola '')]\<rparr>,
      RecognitionResult \<lparr>resultIndex = 1, results = [(True, js ''hola ''), (True, js ''mundo'')]\<rparr>,
      RecognitionEnd (ChatResponse (js ''ok'')) SynthRejected]"

section \<open>Basic facts\<close>

declare decode_loop.simps [simp del]
declare frame_loop.simps [simp del]
declare channel_loop.simps [simp del]
declare onresult_loop.simps [simp del]

subsection \<open>Running actions and events\<close>

lemma run_Nil: "run [] s = s"
  by (simp add: run_def)

lemma run_Cons: "run (a # acts) s = run acts (apply_action a s)"
  by (simp add: run_def)

lemma run_append: "run (xs @ ys) s = run ys (run xs s)"
  by (simp add: run_def)

lemma exec_Nil: "exec [] s = s"
  by (simp add: exec_def)

lemma exec_Cons: "exec (ev # evs) s = exec evs (step s ev)"
  by (simp add: exec_def)

lemma sent_messages_append: "sent_messages (xs @ ys) = sent_messages xs @ sent_messages ys"
  by (induction xs rule: sent_messages.induct) simp_all

lemma sources_started_append:
  "sources_started (xs @ ys) = sources_started xs @ sources_started ys"
  by (induction xs rule: sources_started.induct) simp_all

lemma run_chatHistory:
  "\<forall>h. SetChatHistory h \<notin> set acts \<Longrightarrow> chatHistory (run acts s) = chatHistory s @ appended acts"
proof (induction acts arbitrary: s)
  case Nil
  then show ?case by (simp add: run_Nil)
next
  case (Cons a acts)
  then show ?case
    by (cases a) (auto simp: run_Cons)
qed

lemma run_activeTab:
  "\<forall>t. SetActiveTab t \<notin> set acts \<Longrightarrow> activeTab (run acts s) = activeTab s"
proof (induction acts arbitrary: s)
  case Nil
  then show ?case by (simp add: run_Nil)
next
  case (Cons a acts)
  then show ?case
    by (cases a) (auto simp: run_Cons)
qed

lemma run_speechRecognitionRef:
  "\<forall>r. SetSpeechRecognitionRef r \<notin> set acts \<Longrightarrow>
     speechRecognitionRef (run acts s) = speechRecognitionRef s"
proof (induction acts arbitrary: s)
  case Nil
  then show ?case by (simp add: run_Nil)
next
  case (Cons a acts)
  then show ?case
    by (cases a) (auto simp: run_Cons)
qed

subsection \<open>Strings\<close>

lemma js_Nil: "js [] = []"
  by (simp add: js_def)

lemma js_Cons: "js (c # cs) = of_nat (of_char c) # js cs"
  by (simp add: js_def)

lemma list_all_dropWhile: "list_all P (dropWhile P xs) \<longleftrightarrow> list_all P xs"
  by (induction xs) simp_all

lemma trim_Nil_iff: "trim s = [] \<longleftrightarrow> list_all isWhiteSpace s"
proof -
  have "trim s = [] \<longleftrightarrow> list_all isWhiteSpace (dropWhile isWhiteSpace s)"
    by (simp add: trim_def dropWhile_eq_Nil_conv list_all_iff)
  then show ?thesis
    by (simp add: list_all_dropWhile)
qed

lemma trim_Nil: "trim [] = []"
  by (simp add: trim_def)

lemma trim_hola: "trim (js ''hola'') \<noteq> []"
  by (simp add: trim_Nil_iff js_Cons js_Nil isWhiteSpace_def)

lemma ids_distinct:
  "js ''implications'' \<noteq> js ''thermodynamics''" "js ''implications'' \<noteq> js ''chat''"
  "js ''thermodynamics'' \<noteq> js ''chat''"
  by (simp_all add: js_Cons js_Nil)

subsection \<open>Words and the audio loops\<close>

lemma ucast_byte: "(ucast (ucast (b :: 8 word) :: 16 word) :: 8 word) = b"
  by (rule bit_word_eqI) (simp add: bit_simps)

lemma uint_byte: "0 \<le> uint (b :: 8 word)" "uint (b :: 8 word) < 256"
  using uint_lt2p [of b] by simp_all

lemma uint_word_cat:
  "uint (word_cat (hi :: 8 word) (lo :: 8 word) :: 16 word) = uint lo + 256 * uint hi"
proof -
  have cat: "concat_bit 8 (uint lo) (uint hi) = uint lo + 256 * uint hi"
    using uint_byte [of lo] by (simp add: concat_bit_eq push_bit_eq_mult take_bit_int_eq_self)
  have "uint (word_cat hi lo :: 16 word) = take_bit 16 (concat_bit 8 (uint lo) (uint hi))"
    by (simp add: word_cat_eq' uint_word_of_int_eq)
  also have "\<dots> = uint lo + 256 * uint hi"
    unfolding cat using uint_byte [of lo] uint_byte [of hi]
    by (simp add: take_bit_int_eq_self)
  finally show ?thesis .
qed

lemma sint_16: "sint (w :: 16 word) = (if uint w < 32768 then uint w else uint w - 65536)"
proof -
  have range: "0 \<le> uint w" "uint w < 65536"
    using uint_lt2p [of w] by simp_all
  have "sint w = take_bit 16 (uint w + 32768) - 32768"
    by (simp add: sint_uint signed_take_bit_eq_take_bit_shift)
  also have "\<dots> = (uint w + 32768) mod 65536 - 32768"
    by (simp add: take_bit_eq_mod)
  also have "\<dots> = (if uint w < 32768 then uint w else uint w - 65536)"
  proof (cases "uint w < 32768")
    case True
    with range have "(uint w + 32768) mod 65536 = uint w + 32768"
      by (simp add: mod_pos_pos_trivial)
    with True show ?thesis by simp
  next
    case False
    have "uint w + 32768 = uint w - 32768 + 65536"
      by simp
    then have "(uint w + 32768) mod 65536 = (uint w - 32768 + 65536) mod 65536"
      by (rule arg_cong)
    also have "\<dots> = (uint w - 32768) mod 65536"
      by (simp only: mod_add_self2)
    also have "\<dots> = uint w - 32768"
      using False range by (simp add: mod_pos_pos_trivial)
    finally show ?thesis
      using False by simp
  qed
  finally show ?thesis .
qed

lemma sint_16_range: "- 32768 \<le> sint (w :: 16 word)" "sint (w :: 16 word) < 32768"
  using sint_ge [of w] sint_lt [of w] by simp_all

lemma decode_loop_eq:
  "i \<le> len \<Longrightarrow> length bytes = len \<Longrightarrow> length binaryString = len \<Longrightarrow>
     decode_loop binaryString len i bytes = take i bytes @ map ucast (drop i binaryString)"
proof (induction binaryString len i bytes rule: decode_loop.induct)
  case (1 binaryString len i bytes)
  show ?case
  proof (cases "i < len")
    case True
    let ?bytes = "bytes[i := ucast (binaryString ! i)]"
    have "decode_loop binaryString len i bytes = decode_loop binaryString len (i + 1) ?bytes"
      using True by (simp add: decode_loop.simps [of binaryString len i bytes])
    also have "\<dots> = take (i + 1) ?bytes @ map ucast (drop (i + 1) binaryString)"
      using True "1.prems" by (intro "1.IH") simp_all
    also have "take (i + 1) ?bytes = take i bytes @ [ucast (binaryString ! i)]"
      using True "1.prems" by (simp add: take_Suc_conv_app_nth)
    also have "(take i bytes @ [ucast (binaryString ! i)]) @ map ucast (drop (i + 1) binaryString)
        = take i bytes @ map ucast (drop i binaryString)"
      using True "1.prems" by (simp add: Cons_nth_drop_Suc [symmetric])
    finally show ?thesis .
  next
    case False
    then have "decode_loop binaryString len i bytes = bytes"
      by (subst decode_loop.simps) simp
    with False "1.prems" show ?thesis
      by simp
  qed
qed

lemma decode_eq:
  "atob base64 = Inr binaryString \<Longrightarrow> decode base64 = Inr (map ucast binaryString)"
  by (simp add: decode_def decode_loop_eq)

lemma frame_loop_eq:
  "i \<le> frameCount \<Longrightarrow> length channelData = frameCount \<Longrightarrow>
     frame_loop dataInt16 numChannels channel frameCount i channelData =
       take i channelData @
       map (\<lambda>k. real_of_int (sint (dataInt16 ! (k * numChannels + channel))) / 32768) [i..<frameCount]"
proof (induction dataInt16 numChannels channel frameCount i channelData rule: frame_loop.induct)
  case (1 dataInt16 numChannels channel frameCount i channelData)
  let ?v = "\<lambda>k. real_of_int (sint (dataInt16 ! (k * numChannels + channel))) / 32768"
  show ?case
  proof (cases "i < frameCount")
    case True
    let ?cd = "channelData[i := ?v i]"
    have "frame_loop dataInt16 numChannels channel frameCount i channelData =
        frame_loop dataInt16 numChannels channel frameCount (i + 1) ?cd"
      using True by (simp add: frame_loop.simps [of dataInt16 numChannels channel frameCount i channelData])
    also have "\<dots> = take (i + 1) ?cd @ map ?v [i + 1..<frameCount]"
      using True "1.prems" by (intro "1.IH") simp_all
    also have "take (i + 1) ?cd = take i channelData @ [?v i]"
      using True "1.prems" by (simp add: take_Suc_conv_app_nth)
    also have "(take i channelData @ [?v i]) @ map ?v [i + 1..<frameCount] =
        take i channelData @ map ?v [i..<frameCount]"
      using True by (simp add: upt_conv_Cons)
    finally show ?thesis .
  next
    case False
    then have "frame_loop dataInt16 numChannels channel frameCount i channelData = channelData"
      by (subst frame_loop.simps) simp
    with False "1.prems" show ?thesis
      by simp
  qed
qed

lemma channel_loop_mono:
  "channel_loop dataInt16 (Suc 0) frameCount 0 [channelData] =
     [frame_loop dataInt16 (Suc 0) 0 frameCount 0 channelData]"
proof -
  have past: "channel_loop dataInt16 (Suc 0) frameCount (Suc 0) buffer = buffer" for buffer
    by (subst channel_loop.simps) simp
  show ?thesis
    by (subst channel_loop.simps) (simp add: past)
qed

lemma length_int16_elements: "length (int16_elements bs) = length bs div 2"
  by (induction bs rule: int16_elements.induct) simp_all

lemma nth_int16_elements:
  "i < length bs div 2 \<Longrightarrow> int16_elements bs ! i = word_cat (bs ! (2 * i + 1)) (bs ! (2 * i))"
proof (induction bs arbitrary: i rule: int16_elements.induct)
  case (1 lo hi rest)
  then show ?case
    by (cases i) simp_all
qed simp_all

lemma decodeAudioData_mono:
  assumes "length payload = 2 * N" "0 < N" "0 < sampleRate"
  shows "decodeAudioData payload sampleRate 1 =
           Inr [map (\<lambda>k. real_of_int (sint (int16_elements payload ! k)) / 32768) [0..<N]]"
  using assms
  by (simp add: decodeAudioData_def Int16Array_def createBuffer_def length_int16_elements
      channel_loop_mono frame_loop_eq)

lemma sample_is_reference:
  assumes "i < length payload div 2"
  shows "real_of_int (sint (int16_elements payload ! i)) / 32768 = reference_sample payload i"
proof -
  let ?lo = "payload ! (2 * i)" and ?hi = "payload ! (2 * i + 1)"
  have "sint (int16_elements payload ! i) = sint (word_cat ?hi ?lo :: 16 word)"
    using assms by (simp add: nth_int16_elements)
  also have "\<dots> = (if uint ?lo + 256 * uint ?hi < 32768 then uint ?lo + 256 * uint ?hi
                    else uint ?lo + 256 * uint ?hi - 65536)"
    by (simp only: sint_16 uint_word_cat)
  finally show ?thesis
    by (simp add: reference_sample_def Let_def)
qed

lemma atob_example: "atob (js ''AAD/fwCA'') = Inr [0, 0, 0xFF, 0x7F, 0, 0x80]"
  by (simp add: js_Cons js_Nil atob_def b64_strip_padding_def b64_whitespace_def b64_value_def)

lemma decode_example: "decode (js ''AAD/fwCA'') = Inr [0, 0, 0xFF, 0x7F, 0, 0x80]"
  by (simp add: decode_def atob_example decode_loop.simps)

lemma decodeAudioData_example:
  "decodeAudioData [0, 0, 0xFF, 0x7F, 0, 0x80] 24000 1 = Inr [[0, 32767 / 32768, - 1]]"
  by (simp add: decodeAudioData_def Int16Array_def createBuffer_def channel_loop.simps
      frame_loop.simps word_cat_eq)

subsection \<open>The handlers\<close>

lemma playAudioResponse_cases:
  "playAudioResponse synth s t = []
   \<or> playAudioResponse synth s t = [SetIsSpeaking True, GenerateContent t, SetIsSpeaking False]
   \<or> playAudioResponse synth s t = [SetIsSpeaking True, GenerateContent t, ConsoleError, SetIsSpeaking False]
   \<or> (\<exists>b. playAudioResponse synth s t = [SetIsSpeaking True, GenerateContent t, SourceStart b])"
  unfolding playAudioResponse_def
  by (simp split: synth_result.split option.split sum.split)

lemma playAudioResponse_frame:
  "chatHistory (run (playAudioResponse synth s t) st) = chatHistory st
   \<and> userInput (run (playAudioResponse synth s t) st) = userInput st
   \<and> isLoading (run (playAudioResponse synth s t) st) = isLoading st
   \<and> sent_messages (playAudioResponse synth s t) = []"
  using playAudioResponse_cases [of synth s t]
  by (auto simp: run_Cons run_Nil)

lemma playAudioResponse_failed:
  assumes "synth = SynthRejected \<or> synth = SynthResponse None \<or> synth = SynthResponse (Some [])"
  shows "playAudioResponse synth s t = []
       \<or> playAudioResponse synth s t = [SetIsSpeaking True, GenerateContent t, SetIsSpeaking False]
       \<or> playAudioResponse synth s t = [SetIsSpeaking True, GenerateContent t, ConsoleError, SetIsSpeaking False]"
  using assms unfolding playAudioResponse_def by auto

lemma playAudioResponse_requests:
  assumes "aiRef s \<noteq> None" "audioContextRef s \<noteq> None"
  shows "\<exists>rest. playAudioResponse synth s t = SetIsSpeaking True # GenerateContent t # rest
              \<and> SetIsLoading False \<notin> set rest"
  using assms unfolding playAudioResponse_def
  by (auto split: synth_result.split option.split sum.split)

lemma playAudioResponse_quiet:
  "SetChatHistory h \<notin> set (playAudioResponse synth s t)"
  "SetActiveTab tb \<notin> set (playAudioResponse synth s t)"
  "SetChat c \<notin> set (playAudioResponse synth s t)"
  using playAudioResponse_cases [of synth s t] by auto

lemma handleSendMessage_accepted_reply:
  assumes "trim (userInput s) \<noteq> []" "\<not> isLoading s" "chat s \<noteq> None" "\<not> isSpeaking s"
  shows "handleSendMessage (ChatResponse T) synth s =
           [PreventDefault, AppendChatHistory \<lparr>role = User, content = userInput s\<rparr>, SetUserInput [],
            SetIsLoading True, SendMessage (userInput s), AppendChatHistory \<lparr>role = Model, content = T\<rparr>]
           @ playAudioResponse synth s T @ [SetIsLoading False]"
  using assms unfolding handleSendMessage_def by (simp add: Let_def)

lemma accepted_sends:
  assumes "trim (userInput s) \<noteq> []" "\<not> isLoading s" "chat s \<noteq> None" "\<not> isSpeaking s"
  shows "sent_messages (handleSendMessage reply synth s) = [userInput s]"
  using assms playAudioResponse_frame [of synth s]
  unfolding handleSendMessage_def
  by (cases reply) (simp_all add: Let_def sent_messages_append)

lemma handleSendMessage_quiet:
  "SetChatHistory h \<notin> set (handleSendMessage reply synth s)"
  "SetActiveTab tb \<notin> set (handleSendMessage reply synth s)"
  "SetChat c \<notin> set (handleSendMessage reply synth s)"
  unfolding handleSendMessage_def
  by (cases reply; simp add: Let_def playAudioResponse_quiet)+

lemma dispatch_no_reset: "SetChatHistory h \<notin> set (dispatch ev s)"
  by (cases ev)
    (auto simp: dispatch_def handleSendMessage_quiet handleMicClick_def recognition_onresult_def
      recognition_onend_def Let_def split: option.split)

lemma dispatch_tab:
  "SetActiveTab t \<in> set (dispatch ev s) \<Longrightarrow> \<exists>tab \<in> set tabsData. ev = TabClick tab \<and> t = id' tab"
  by (cases ev)
    (auto simp: dispatch_def handleSendMessage_quiet handleMicClick_def recognition_onresult_def
      recognition_onend_def Let_def split: option.splits if_splits)

lemma dispatch_keeps_recognition: "SetSpeechRecognitionRef r \<notin> set (dispatch ev s)"
proof -
  have play: "SetSpeechRecognitionRef r \<notin> set (playAudioResponse synth s' t)" for synth s' t
    using playAudioResponse_cases [of synth s' t] by auto
  have send: "SetSpeechRecognitionRef r \<notin> set (handleSendMessage reply synth s')" for reply synth s'
    unfolding handleSendMessage_def by (cases reply) (simp_all add: Let_def play)
  show ?thesis
    by (cases ev)
      (auto simp: dispatch_def send handleMicClick_def recognition_onresult_def
        recognition_onend_def Let_def split: option.split)
qed

lemma step_TabClick:
  "tab \<in> set tabsData \<Longrightarrow> step s (TabClick tab) = s\<lparr>activeTab := id' tab\<rparr>"
  by (simp add: step_def dispatch_def run_Cons run_Nil)

lemma step_chatHistory: "chatHistory (step s ev) = chatHistory s @ appended (dispatch ev s)"
  unfolding step_def by (rule run_chatHistory) (simp add: dispatch_no_reset)

lemma step_activeTab:
  "activeTab (step s ev) = activeTab s \<or> activeTab (step s ev) \<in> id' ` set tabsData"
proof (cases "\<exists>t. SetActiveTab t \<in> set (dispatch ev s)")
  case True
  then obtain tab where "tab \<in> set tabsData" "ev = TabClick tab"
    using dispatch_tab by blast
  then show ?thesis
    by (simp add: step_TabClick)
next
  case False
  then show ?thesis
    unfolding step_def by (simp add: run_activeTab)
qed

subsection \<open>Reachable cards\<close>

lemma mount_chatHistory:
  "chatHistory (mount p) =
     (if init_succeeds p then [\<lparr>role = Model, content = greeting\<rparr>]
      else [\<lparr>role = System, content = init_error_text\<rparr>])"
  by (simp add: mount_def init_def init_catch_def init_succeeds_def run_Cons run_Nil run_append)

lemma mount_activeTab: "activeTab (mount p) = js ''implications''"
  by (simp add: mount_def init_def init_catch_def initial_state_def run_Cons run_Nil run_append)

lemma mount_recognition:
  "speechRecognitionRef (mount p) = Some r \<Longrightarrow> onend_userInput r = []"
  by (auto simp: mount_def init_def init_catch_def initial_state_def run_Cons run_Nil run_append
      split: if_splits)

lemma exec_chatHistory: "\<exists>rest. chatHistory (exec evs s) = chatHistory s @ rest"
proof (induction evs arbitrary: s)
  case Nil
  then show ?case by (simp add: exec_Nil)
next
  case (Cons ev evs)
  from Cons.IH [of "step s ev"] obtain rest
    where "chatHistory (exec evs (step s ev)) = chatHistory (step s ev) @ rest" ..
  then show ?case
    by (simp add: exec_Cons step_chatHistory)
qed

lemma exec_activeTab:
  "activeTab s \<in> id' ` set tabsData \<Longrightarrow> activeTab (exec evs s) \<in> id' ` set tabsData"
proof (induction evs arbitrary: s)
  case Nil
  then show ?case by (simp add: exec_Nil)
next
  case (Cons ev evs)
  from step_activeTab [of s ev] Cons.prems have "activeTab (step s ev) \<in> id' ` set tabsData"
    by auto
  then show ?case
    by (simp add: exec_Cons Cons.IH)
qed

lemma reachable_activeTab: "activeTab (exec evs (mount p)) \<in> id' ` set tabsData"
  by (rule exec_activeTab) (simp add: mount_activeTab tabsData_def)

lemma exec_speechRecognitionRef: "speechRecognitionRef (exec evs s) = speechRecognitionRef s"
proof (induction evs arbitrary: s)
  case Nil
  then show ?case by (simp add: exec_Nil)
next
  case (Cons ev evs)
  have "speechRecognitionRef (step s ev) = speechRecognitionRef s"
    unfolding step_def by (rule run_speechRecognitionRef) (simp add: dispatch_keeps_recognition)
  then show ?case
    by (simp add: exec_Cons Cons.IH)
qed

lemma onend_never_requests_submit:
  assumes "speechRecognitionRef (exec evs (mount p)) = Some r"
  shows "recognition_onend r s = [SetIsListening False]"
proof -
  from assms have "speechRecognitionRef (mount p) = Some r"
    by (simp add: exec_speechRecognitionRef)
  then have "onend_userInput r = []"
    by (rule mount_recognition)
  then show ?thesis
    by (simp add: recognition_onend_def trim_Nil)
qed

lemma select_tabs_only_activeTab:
  "set tabs \<subseteq> set tabsData \<Longrightarrow>
     exec (map TabClick tabs) s = s\<lparr>activeTab := (if tabs = [] then activeTab s else id' (last tabs))\<rparr>"
proof (induction tabs rule: rev_induct)
  case Nil
  then show ?case by (simp add: exec_def)
next
  case (snoc tab tabs)
  then have "tab \<in> set tabsData" "set tabs \<subseteq> set tabsData"
    by simp_all
  with snoc.IH show ?case
    by (simp add: exec_def step_TabClick)
qed

lemma pane_of_tab:
  assumes "activeTab s \<in> id' ` set tabsData"
  shows "content_pane s =
           [if activeTab s = js ''implications'' then ImplicationsContent
            else if activeTab s = js ''thermodynamics'' then ThermodynamicsContent
            else ChatInterface]"
    and "length (selected_tabs s) = 1"
  using assms ids_distinct
  by (auto simp: content_pane_def selected_tabs_def tabsData_def)

subsection \<open>The concrete session\<close>

lemma mount_working:
  "mount working_platform =
     \<lparr>activeTab = js ''implications'', chat = Some ChatSession,
      chatHistory = [\<lparr>role = Model, content = greeting\<rparr>], userInput = [],
      isLoading = False, isListening = False, isSpeaking = False,
      aiRef = Some GenAIClient,
      speechRecognitionRef =
        Some \<lparr>continuous = True, interimResults = True, lang = js ''es-ES'', onend_userInput = []\<rparr>,
      audioContextRef = Some AudioContext24000\<rparr>"
  by (simp add: mount_def init_def working_platform_def initial_state_def run_Cons run_Nil)

lemma mount_keyless:
  "mount keyless_platform =
     initial_state\<lparr>chatHistory := [\<lparr>role = System, content = init_error_text\<rparr>]\<rparr>"
  by (simp add: mount_def init_def init_catch_def keyless_platform_def run_Cons run_Nil)

lemma chat_tab_eq: "id' chat_tab = js ''chat''"
  by (simp add: chat_tab_def tabsData_def)

lemma chat_tab_in: "chat_tab \<in> set tabsData"
  by (simp add: chat_tab_def tabsData_def)

lemma typed_eq:
  "typed v =
     \<lparr>activeTab = js ''chat'', chat = Some ChatSession,
      chatHistory = [\<lparr>role = Model, content = greeting\<rparr>], userInput = v,
      isLoading = False, isListening = False, isSpeaking = False,
      aiRef = Some GenAIClient,
      speechRecognitionRef =
        Some \<lparr>continuous = True, interimResults = True, lang = js ''es-ES'', onend_userInput = []\<rparr>,
      audioContextRef = Some AudioContext24000\<rparr>"
  by (simp add: typed_def exec_def step_def dispatch_def chat_tab_in mount_working run_Cons run_Nil
      formRef_current_def content_pane_def input_disabled_def chat_tab_eq js_Cons js_Nil)

lemma typed_hola:
  "userInput (typed (js ''hola'')) = js ''hola''" "\<not> isLoading (typed (js ''hola''))"
  "chat (typed (js ''hola'')) \<noteq> None" "\<not> isSpeaking (typed (js ''hola''))"
  "aiRef (typed (js ''hola'')) \<noteq> None" "audioContextRef (typed (js ''hola'')) \<noteq> None"
  "trim (userInput (typed (js ''hola''))) \<noteq> []"
  using trim_hola by (simp_all add: typed_eq)

lemma spoken_reply_example:
  "handleSendMessage (ChatResponse (js ''ok'')) (SynthResponse (Some (js ''AAD/fwCA''))) (typed (js ''hola'')) =
     [PreventDefault, AppendChatHistory \<lparr>role = User, content = js ''hola''\<rparr>, SetUserInput [],
      SetIsLoading True, SendMessage (js ''hola''), AppendChatHistory \<lparr>role = Model, content = js ''ok''\<rparr>,
      SetIsSpeaking True, GenerateContent (js ''ok''), SourceStart [[0, 32767 / 32768, - 1]],
      SetIsLoading False]"
proof -
  have payload: "js ''AAD/fwCA'' \<noteq> []"
    by (simp add: js_Cons)
  have play: "playAudioResponse (SynthResponse (Some (js ''AAD/fwCA''))) (typed (js ''hola'')) (js ''ok'') =
      [SetIsSpeaking True, GenerateContent (js ''ok''), SourceStart [[0, 32767 / 32768, - 1]]]"
    unfolding playAudioResponse_def using typed_hola(5,6) payload
    by (simp add: decode_example decodeAudioData_example del: One_nat_def)
  show ?thesis
    unfolding handleSendMessage_accepted_reply [OF typed_hola(7) typed_hola(2) typed_hola(3) typed_hola(4)]
      play typed_hola(1)
    by simp
qed

section \<open>Tabs\<close>

text \<open>
  C7. From any state the card can reach, after any sequence of clicks on the three tab
  buttons: the default tab is the first of \<open>tabsData\<close>; one button is selected; the
  content pane holds one component, that of the active tab; the active tab is the last
  one clicked; and nothing but \<open>activeTab\<close> differs from the state before the clicks.
\<close>

theorem exactly_one_tab_rendered:
  assumes reach: "s = exec evs (mount p)"
      and tabs: "set tabs \<subseteq> set tabsData"
      and sel: "s' = exec (map TabClick tabs) s"
  shows "activeTab (mount p) = id' (hd tabsData)
       \<and> length (selected_tabs s') = 1
       \<and> content_pane s' =
           [if activeTab s' = js ''implications'' then ImplicationsContent
            else if activeTab s' = js ''thermodynamics'' then ThermodynamicsContent
            else ChatInterface]
       \<and> activeTab s' = (if tabs = [] then activeTab s else id' (last tabs))
       \<and> s' = s\<lparr>activeTab := activeTab s'\<rparr>"
proof -
  have default: "activeTab (mount p) = id' (hd tabsData)"
    by (simp add: mount_activeTab tabsData_def)
  have upd: "s' = s\<lparr>activeTab := (if tabs = [] then activeTab s else id' (last tabs))\<rparr>"
    unfolding sel by (rule select_tabs_only_activeTab [OF tabs])
  then have active: "activeTab s' = (if tabs = [] then activeTab s else id' (last tabs))"
    by simp
  have valid: "activeTab s' \<in> id' ` set tabsData"
  proof (cases "tabs = []")
    case True
    with active reach show ?thesis
      by (simp add: reachable_activeTab)
  next
    case False
    then have "last tabs \<in> set tabsData"
      using tabs last_in_set by blast
    with active False show ?thesis
      by simp
  qed
  from upd active have frame: "s' = s\<lparr>activeTab := activeTab s'\<rparr>"
    by simp
  from default pane_of_tab [OF valid] active frame show ?thesis
    by blast
qed

theorem exactly_one_tab_rendered_witness:
  "set [tabsData ! 1, chat_tab] \<subseteq> set tabsData
   \<and> activeTab (mount working_platform) = js ''implications''
   \<and> content_pane (exec (map TabClick [tabsData ! 1, chat_tab]) (exec [MicClick] (mount working_platform)))
       = [ChatInterface]
   \<and> length (selected_tabs (exec (map TabClick [tabsData ! 1, chat_tab]) (exec [MicClick] (mount working_platform)))) = 1
   \<and> chatHistory (exec (map TabClick [tabsData ! 1, chat_tab]) (exec [MicClick] (mount working_platform)))
       = chatHistory (exec [MicClick] (mount working_platform))"
proof -
  have tabs: "set [tabsData ! 1, chat_tab] \<subseteq> set tabsData"
    by (simp add: chat_tab_def tabsData_def)
  note r = exactly_one_tab_rendered [where evs = "[MicClick]" and p = working_platform
      and s = "exec [MicClick] (mount working_platform)" and tabs = "[tabsData ! 1, chat_tab]"
      and s' = "exec (map TabClick [tabsData ! 1, chat_tab]) (exec [MicClick] (mount working_platform))",
      OF refl tabs refl]
  have active: "activeTab (exec (map TabClick [tabsData ! 1, chat_tab]) (exec [MicClick] (mount working_platform)))
      = js ''chat''"
    using r by (simp add: chat_tab_eq)
  have frame: "chatHistory (exec (map TabClick [tabsData ! 1, chat_tab]) (exec [MicClick] (mount working_platform)))
       = chatHistory (exec [MicClick] (mount working_platform))"
  proof -
    from r have only: "exec (map TabClick [tabsData ! 1, chat_tab]) (exec [MicClick] (mount working_platform)) =
        (exec [MicClick] (mount working_platform))
          \<lparr>activeTab := activeTab (exec (map TabClick [tabsData ! 1, chat_tab]) (exec [MicClick] (mount working_platform)))\<rparr>"
      by blast
    show ?thesis
      by (subst only) simp
  qed
  from r tabs active frame ids_distinct show ?thesis
    by (simp add: tabsData_def)
qed

section \<open>The transcript's first turn\<close>

text \<open>
  C9. After the mount effect the transcript is one turn: the assistant's greeting when
  nothing in \<open>init\<close> threw, the system turn with the initialisation error otherwise.
  Whatever events follow, the transcript is that turn followed by what was appended. (The
  render before the effect, \<open>initial_state\<close>, shows an empty transcript; no handler runs
  on it.)
\<close>

theorem transcript_starts_with_initial_turn:
  "chatHistory (mount p) =
     [if init_succeeds p then \<lparr>role = Model, content = greeting\<rparr>
      else \<lparr>role = System, content = init_error_text\<rparr>]
   \<and> (\<exists>rest. chatHistory (exec evs (mount p)) =
         (if init_succeeds p then \<lparr>role = Model, content = greeting\<rparr>
          else \<lparr>role = System, content = init_error_text\<rparr>) # rest)"
proof -
  let ?first = "if init_succeeds p then \<lparr>role = Model, content = greeting\<rparr>
                else \<lparr>role = System, content = init_error_text\<rparr>"
  have mounted: "chatHistory (mount p) = [?first]"
    by (simp add: mount_chatHistory)
  obtain rest where "chatHistory (exec evs (mount p)) = chatHistory (mount p) @ rest"
    using exec_chatHistory [of evs "mount p"] ..
  with mounted have "chatHistory (exec evs (mount p)) = ?first # rest"
    by simp
  with mounted show ?thesis
    by blast
qed

section \<open>Submitting a message\<close>

text \<open>
  C1. A submission of input that is non-empty once trimmed, made while no reply is
  pending, no audio is playing and the chat session exists, whose chat-send resolves with
  reply text \<open>T\<close>: the transcript gains the user turn with the submitted text, untrimmed,
  and then the assistant turn with content \<open>T\<close> and nothing else, the pending input is
  cleared, \<open>isLoading\<close> is false again, and one message was sent, the submitted text.
  Non-empty input of white space only is rejected by the guard (C3) and never sent.
\<close>

theorem successful_reply_transcript:
  assumes accepted: "trim (userInput s) \<noteq> []"
      and idle: "\<not> isLoading s" "\<not> isSpeaking s"
      and ready: "chat s \<noteq> None"
  shows "chatHistory (run (handleSendMessage (ChatResponse T) synth s) s) =
           chatHistory s @ [\<lparr>role = User, content = userInput s\<rparr>, \<lparr>role = Model, content = T\<rparr>]
       \<and> userInput (run (handleSendMessage (ChatResponse T) synth s) s) = []
       \<and> \<not> isLoading (run (handleSendMessage (ChatResponse T) synth s) s)
       \<and> sent_messages (handleSendMessage (ChatResponse T) synth s) = [userInput s]"
proof -
  let ?play = "playAudioResponse synth s T"
  let ?pre = "[PreventDefault, AppendChatHistory \<lparr>role = User, content = userInput s\<rparr>, SetUserInput [],
       SetIsLoading True, SendMessage (userInput s), AppendChatHistory \<lparr>role = Model, content = T\<rparr>]"
  have acts: "handleSendMessage (ChatResponse T) synth s = ?pre @ ?play @ [SetIsLoading False]"
    using accepted idle ready unfolding handleSendMessage_def by (simp add: Let_def)
  have fin: "run (handleSendMessage (ChatResponse T) synth s) s = (run ?play (run ?pre s))\<lparr>isLoading := False\<rparr>"
    unfolding acts by (simp add: run_append run_Cons run_Nil)
  have pre: "chatHistory (run ?pre s) =
               chatHistory s @ [\<lparr>role = User, content = userInput s\<rparr>, \<lparr>role = Model, content = T\<rparr>]"
      "userInput (run ?pre s) = []"
    by (simp_all add: run_Cons run_Nil)
  show ?thesis
    unfolding fin
    using playAudioResponse_frame [of synth s T "run ?pre s"] pre
      accepted_sends [OF accepted idle(1) ready idle(2), of "ChatResponse T" synth]
    by simp
qed

theorem successful_reply_transcript_witness:
  "trim (userInput (typed (js ''hola''))) \<noteq> []
   \<and> \<not> isLoading (typed (js ''hola'')) \<and> \<not> isSpeaking (typed (js ''hola''))
   \<and> chat (typed (js ''hola'')) \<noteq> None
   \<and> chatHistory (run (handleSendMessage (ChatResponse (js ''ok'')) SynthRejected (typed (js ''hola''))) (typed (js ''hola''))) =
        [\<lparr>role = Model, content = greeting\<rparr>, \<lparr>role = User, content = js ''hola''\<rparr>,
         \<lparr>role = Model, content = js ''ok''\<rparr>]
   \<and> userInput (run (handleSendMessage (ChatResponse (js ''ok'')) SynthRejected (typed (js ''hola''))) (typed (js ''hola''))) = []
   \<and> \<not> isLoading (run (handleSendMessage (ChatResponse (js ''ok'')) SynthRejected (typed (js ''hola''))) (typed (js ''hola'')))
   \<and> sent_messages (handleSendMessage (ChatResponse (js ''ok'')) SynthRejected (typed (js ''hola''))) = [js ''hola'']"
proof -
  let ?s = "typed (js ''hola'')"
  have st: "userInput ?s = js ''hola''" "chatHistory ?s = [\<lparr>role = Model, content = greeting\<rparr>]"
    by (simp_all add: typed_eq)
  from successful_reply_transcript [OF typed_hola(7) typed_hola(2) typed_hola(4) typed_hola(3),
      of "js ''ok''" SynthRejected]
    st typed_hola(2,3,4,7)
  show ?thesis by simp
qed

text \<open>
  C2. An accepted submission whose chat-send is rejected: the handler is exactly the
  listed actions, so the transcript gains the user turn and then one system turn with the
  fixed error text, \<open>isLoading\<close> is false again, and \<open>sendMessage\<close> was called once.
\<close>

theorem failed_send_error_turn:
  assumes accepted: "trim (userInput s) \<noteq> []" "\<not> isLoading s" "chat s \<noteq> None" "\<not> isSpeaking s"
  shows "handleSendMessage ChatRejected synth s =
           [PreventDefault, AppendChatHistory \<lparr>role = User, content = userInput s\<rparr>, SetUserInput [],
            SetIsLoading True, SendMessage (userInput s), ConsoleError,
            AppendChatHistory \<lparr>role = System, content = send_error_text\<rparr>, SetIsLoading False]
       \<and> chatHistory (run (handleSendMessage ChatRejected synth s) s) =
           chatHistory s @ [\<lparr>role = User, content = userInput s\<rparr>,
                            \<lparr>role = System, content = send_error_text\<rparr>]
       \<and> \<not> isLoading (run (handleSendMessage ChatRejected synth s) s)
       \<and> sent_messages (handleSendMessage ChatRejected synth s) = [userInput s]"
proof -
  have acts: "handleSendMessage ChatRejected synth s =
           [PreventDefault, AppendChatHistory \<lparr>role = User, content = userInput s\<rparr>, SetUserInput [],
            SetIsLoading True, SendMessage (userInput s), ConsoleError,
            AppendChatHistory \<lparr>role = System, content = send_error_text\<rparr>, SetIsLoading False]"
    using accepted unfolding handleSendMessage_def by (simp add: Let_def)
  show ?thesis
    unfolding acts by (simp add: run_Cons run_Nil)
qed

theorem failed_send_error_turn_witness:
  "trim (userInput (typed (js ''hola''))) \<noteq> []
   \<and> \<not> isLoading (typed (js ''hola'')) \<and> chat (typed (js ''hola'')) \<noteq> None
   \<and> \<not> isSpeaking (typed (js ''hola''))
   \<and> chatHistory (run (handleSendMessage ChatRejected SynthRejected (typed (js ''hola''))) (typed (js ''hola''))) =
        [\<lparr>role = Model, content = greeting\<rparr>, \<lparr>role = User, content = js ''hola''\<rparr>,
         \<lparr>role = System, content = send_error_text\<rparr>]
   \<and> \<not> isLoading (run (handleSendMessage ChatRejected SynthRejected (typed (js ''hola''))) (typed (js ''hola'')))
   \<and> sent_messages (handleSendMessage ChatRejected SynthRejected (typed (js ''hola''))) = [js ''hola'']"
proof -
  let ?s = "typed (js ''hola'')"
  have st: "userInput ?s = js ''hola''" "\<not> isLoading ?s" "chat ?s \<noteq> None" "\<not> isSpeaking ?s"
      "chatHistory ?s = [\<lparr>role = Model, content = greeting\<rparr>]"
    by (simp_all add: typed_eq)
  have tr: "trim (userInput ?s) \<noteq> []"
    using trim_hola st(1) by simp
  from failed_send_error_turn [OF tr st(2) st(3) st(4), of SynthRejected, THEN conjunct2] st tr
  show ?thesis by simp
qed

text \<open>
  C3. A submission with empty or white-space-only input, or made while a reply is
  pending, or while audio is playing, does nothing: the handler only prevents the
  form's default action, every state it passes through is the state it started from, and
  the submit event leaves the card as it was.
\<close>

theorem rejected_submission_is_noop:
  assumes "userInput s = [] \<or> list_all isWhiteSpace (userInput s) \<or> isLoading s \<or> isSpeaking s"
  shows "handleSendMessage reply synth s = [PreventDefault]
       \<and> run (handleSendMessage reply synth s) s = s
       \<and> trace (handleSendMessage reply synth s) s = [s, s]
       \<and> step s (FormSubmit reply synth) = s"
proof -
  have blank: "userInput s = [] \<Longrightarrow> list_all isWhiteSpace (userInput s)"
    by simp
  from assms blank have guard: "trim (userInput s) = [] \<or> isLoading s \<or> chat s = None \<or> isSpeaking s"
    unfolding trim_Nil_iff by blast
  then have acts: "handleSendMessage reply synth s = [PreventDefault]"
    unfolding handleSendMessage_def by simp
  then show ?thesis
    by (simp add: step_def dispatch_def run_Cons run_Nil)
qed

theorem rejected_submission_is_noop_witness:
  "list_all isWhiteSpace (userInput (typed (js ''  '')))
   \<and> chat (typed (js ''  '')) = Some ChatSession
   \<and> handleSendMessage (ChatResponse (js ''ok'')) SynthRejected (typed (js ''  '')) = [PreventDefault]
   \<and> step (typed (js ''  '')) (FormSubmit (ChatResponse (js ''ok'')) SynthRejected) = typed (js ''  '')"
proof -
  have blank: "list_all isWhiteSpace (userInput (typed (js ''  '')))"
    by (simp add: typed_eq js_Cons js_Nil isWhiteSpace_def)
  have ready: "chat (typed (js ''  '')) = Some ChatSession"
    by (simp add: typed_eq)
  from blank ready
    rejected_submission_is_noop [of "typed (js ''  '')" "ChatResponse (js ''ok'')" SynthRejected]
  show ?thesis by blast
qed

text \<open>
  C10. While the card holds no chat session the submission is rejected whatever the
  input: nothing is appended, nothing is sent, and the state (so \<open>isLoading\<close> too) is
  unchanged. On the keyless card with text pending, nothing else in the guard holds: the
  same submission is sent once the state holds a session.
\<close>

theorem uninitialized_chat_rejects_submission:
  assumes "chat s = None"
  shows "handleSendMessage reply synth s = [PreventDefault]
       \<and> run (handleSendMessage reply synth s) s = s
       \<and> step s (FormSubmit reply synth) = s"
proof -
  from assms have acts: "handleSendMessage reply synth s = [PreventDefault]"
    unfolding handleSendMessage_def by simp
  then show ?thesis
    by (simp add: step_def dispatch_def run_Cons run_Nil)
qed

theorem uninitialized_chat_rejects_submission_witness:
  "chat keyless_with_text = None
   \<and> trim (userInput keyless_with_text) \<noteq> []
   \<and> \<not> isLoading keyless_with_text \<and> \<not> isSpeaking keyless_with_text
   \<and> formRef_current keyless_with_text
   \<and> handleSendMessage (ChatResponse (js ''ok'')) SynthRejected keyless_with_text = [PreventDefault]
   \<and> step keyless_with_text (FormSubmit (ChatResponse (js ''ok'')) SynthRejected) = keyless_with_text
   \<and> sent_messages
        (handleSendMessage (ChatResponse (js ''ok'')) SynthRejected (keyless_with_text\<lparr>chat := Some ChatSession\<rparr>))
       = [js ''hola'']"
proof -
  have st: "chat keyless_with_text = None" "userInput keyless_with_text = js ''hola''"
      "\<not> isLoading keyless_with_text" "\<not> isSpeaking keyless_with_text"
      "activeTab keyless_with_text = js ''chat''"
    by (simp_all add: keyless_with_text_def exec_Cons exec_Nil step_TabClick chat_tab_in chat_tab_eq
        mount_keyless initial_state_def)
  have pending: "trim (userInput keyless_with_text) \<noteq> []"
    using trim_hola st(2) by simp
  have form: "formRef_current keyless_with_text"
    using st(5) by (simp add: formRef_current_def content_pane_def)
  have with_chat: "sent_messages
        (handleSendMessage (ChatResponse (js ''ok'')) SynthRejected (keyless_with_text\<lparr>chat := Some ChatSession\<rparr>))
       = [js ''hola'']"
    using accepted_sends [of "keyless_with_text\<lparr>chat := Some ChatSession\<rparr>" "ChatResponse (js ''ok'')" SynthRejected]
      st pending
    by simp
  from uninitialized_chat_rejects_submission [OF st(1), of "ChatResponse (js ''ok'')" SynthRejected]
    st(1) st(3) st(4) pending form with_chat
  show ?thesis
    by blast
qed

section \<open>Speaking the reply\<close>

text \<open>
  C5. The order on a successful reply, when the client and the audio context exist: the
  assistant turn is appended, then \<open>isSpeaking\<close> is set and the synthesis request made,
  both while \<open>isLoading\<close> is still true; \<open>isLoading\<close> is cleared by the handler's last
  action and by no earlier one, after \<open>playAudioResponse\<close> has returned. While the
  synthesis request is pending both flags are true.
\<close>

theorem speaking_starts_before_loading_ends:
  assumes accepted: "trim (userInput s) \<noteq> []" "\<not> isLoading s" "chat s \<noteq> None" "\<not> isSpeaking s"
      and refs: "aiRef s \<noteq> None" "audioContextRef s \<noteq> None"
  shows "take 8 (handleSendMessage (ChatResponse T) synth s) =
           [PreventDefault, AppendChatHistory \<lparr>role = User, content = userInput s\<rparr>, SetUserInput [],
            SetIsLoading True, SendMessage (userInput s), AppendChatHistory \<lparr>role = Model, content = T\<rparr>,
            SetIsSpeaking True, GenerateContent T]
       \<and> last (handleSendMessage (ChatResponse T) synth s) = SetIsLoading False
       \<and> SetIsLoading False \<notin> set (butlast (handleSendMessage (ChatResponse T) synth s))
       \<and> isLoading (run (take 8 (handleSendMessage (ChatResponse T) synth s)) s)
       \<and> isSpeaking (run (take 8 (handleSendMessage (ChatResponse T) synth s)) s)"
proof -
  obtain rest where play: "playAudioResponse synth s T = SetIsSpeaking True # GenerateContent T # rest"
    and rest: "SetIsLoading False \<notin> set rest"
    using playAudioResponse_requests [OF refs] by blast
  have acts: "handleSendMessage (ChatResponse T) synth s =
           [PreventDefault, AppendChatHistory \<lparr>role = User, content = userInput s\<rparr>, SetUserInput [],
            SetIsLoading True, SendMessage (userInput s), AppendChatHistory \<lparr>role = Model, content = T\<rparr>,
            SetIsSpeaking True, GenerateContent T] @ rest @ [SetIsLoading False]"
    unfolding handleSendMessage_accepted_reply [OF accepted] play by simp
  have order: "take 8 (handleSendMessage (ChatResponse T) synth s) =
           [PreventDefault, AppendChatHistory \<lparr>role = User, content = userInput s\<rparr>, SetUserInput [],
            SetIsLoading True, SendMessage (userInput s), AppendChatHistory \<lparr>role = Model, content = T\<rparr>,
            SetIsSpeaking True, GenerateContent T]"
    unfolding acts by simp
  have final: "last (handleSendMessage (ChatResponse T) synth s) = SetIsLoading False"
    unfolding acts by simp
  have "butlast (handleSendMessage (ChatResponse T) synth s) =
           [PreventDefault, AppendChatHistory \<lparr>role = User, content = userInput s\<rparr>, SetUserInput [],
            SetIsLoading True, SendMessage (userInput s), AppendChatHistory \<lparr>role = Model, content = T\<rparr>,
            SetIsSpeaking True, GenerateContent T] @ rest"
    unfolding acts by (simp add: butlast_append)
  then have only_last: "SetIsLoading False \<notin> set (butlast (handleSendMessage (ChatResponse T) synth s))"
    using rest by simp
  have both: "isLoading (run (take 8 (handleSendMessage (ChatResponse T) synth s)) s)"
    "isSpeaking (run (take 8 (handleSendMessage (ChatResponse T) synth s)) s)"
    unfolding order by (simp_all add: run_Cons run_Nil)
  from order final only_last both show ?thesis
    by blast
qed

theorem speaking_starts_before_loading_ends_witness:
  "trim (userInput (typed (js ''hola''))) \<noteq> []
   \<and> aiRef (typed (js ''hola'')) \<noteq> None \<and> audioContextRef (typed (js ''hola'')) \<noteq> None
   \<and> take 8 (handleSendMessage (ChatResponse (js ''ok'')) (SynthResponse (Some (js ''AAD/fwCA''))) (typed (js ''hola''))) =
        [PreventDefault, AppendChatHistory \<lparr>role = User, content = js ''hola''\<rparr>, SetUserInput [],
         SetIsLoading True, SendMessage (js ''hola''), AppendChatHistory \<lparr>role = Model, content = js ''ok''\<rparr>,
         SetIsSpeaking True, GenerateContent (js ''ok'')]
   \<and> last (handleSendMessage (ChatResponse (js ''ok'')) (SynthResponse (Some (js ''AAD/fwCA''))) (typed (js ''hola''))) =
        SetIsLoading False
   \<and> isLoading (run (take 8 (handleSendMessage (ChatResponse (js ''ok'')) (SynthResponse (Some (js ''AAD/fwCA''))) (typed (js ''hola'')))) (typed (js ''hola'')))
   \<and> isSpeaking (run (take 8 (handleSendMessage (ChatResponse (js ''ok'')) (SynthResponse (Some (js ''AAD/fwCA''))) (typed (js ''hola'')))) (typed (js ''hola'')))"
proof -
  note r = speaking_starts_before_loading_ends [OF typed_hola(7) typed_hola(2) typed_hola(3)
      typed_hola(4) typed_hola(5) typed_hola(6), of "js ''ok''" "SynthResponse (Some (js ''AAD/fwCA''))",
      unfolded typed_hola(1)]
  from r typed_hola(5,6,7) show ?thesis
    by blast
qed

text \<open>
  C5 as claimed, with \<open>isLoading\<close> cleared before \<open>isSpeaking\<close> is set and the two flags
  never true together, fails on the reply \<open>ok\<close> to \<open>hola\<close> spoken from a three-sample
  payload: \<open>setIsSpeaking(true)\<close> is the handler's action 6, the synthesis request action 7,
  \<open>setIsLoading(false)\<close> action 9, and in the state after the request both flags are true.
\<close>

theorem waiting_and_playing_counterexample:
  "handleSendMessage (ChatResponse (js ''ok'')) (SynthResponse (Some (js ''AAD/fwCA''))) (typed (js ''hola'')) ! 6
     = SetIsSpeaking True
   \<and> handleSendMessage (ChatResponse (js ''ok'')) (SynthResponse (Some (js ''AAD/fwCA''))) (typed (js ''hola'')) ! 7
     = GenerateContent (js ''ok'')
   \<and> handleSendMessage (ChatResponse (js ''ok'')) (SynthResponse (Some (js ''AAD/fwCA''))) (typed (js ''hola'')) ! 9
     = SetIsLoading False
   \<and> isLoading (trace (handleSendMessage (ChatResponse (js ''ok'')) (SynthResponse (Some (js ''AAD/fwCA''))) (typed (js ''hola''))) (typed (js ''hola'')) ! 8)
   \<and> isSpeaking (trace (handleSendMessage (ChatResponse (js ''ok'')) (SynthResponse (Some (js ''AAD/fwCA''))) (typed (js ''hola''))) (typed (js ''hola'')) ! 8)"
  unfolding spoken_reply_example by (simp add: nth_Cons')

text \<open>
  C8. When the synthesis request is rejected, or resolves without audio data (none, or
  the empty string): no source is started, the transcript is what it was (whatever state
  the updates land on), and once the request has been made \<open>isSpeaking\<close> ends false. For
  the submission as a whole: the transcript ends with the user turn and the assistant's
  text, \<open>isSpeaking\<close> is false and nothing was played.
\<close>

theorem synthesis_failure_is_silent:
  assumes fails: "synth = SynthRejected \<or> synth = SynthResponse None \<or> synth = SynthResponse (Some [])"
  shows "sources_started (playAudioResponse synth s t) = []
       \<and> chatHistory (run (playAudioResponse synth s t) st) = chatHistory st
       \<and> (GenerateContent t \<in> set (playAudioResponse synth s t) \<longrightarrow>
            \<not> isSpeaking (run (playAudioResponse synth s t) st))
       \<and> (trim (userInput s) \<noteq> [] \<and> \<not> isLoading s \<and> chat s \<noteq> None \<and> \<not> isSpeaking s \<longrightarrow>
            chatHistory (run (handleSendMessage (ChatResponse t) synth s) s) =
              chatHistory s @ [\<lparr>role = User, content = userInput s\<rparr>, \<lparr>role = Model, content = t\<rparr>]
            \<and> \<not> isSpeaking (run (handleSendMessage (ChatResponse t) synth s) s)
            \<and> sources_started (handleSendMessage (ChatResponse t) synth s) = [])"
proof -
  let ?play = "playAudioResponse synth s t"
  note cases = playAudioResponse_failed [OF fails, of s t]
  have silent: "sources_started ?play = []"
    using cases by auto
  have frame: "chatHistory (run ?play x) = chatHistory x" for x
    using cases by (auto simp: run_Cons run_Nil)
  have off: "GenerateContent t \<in> set ?play \<Longrightarrow> \<not> isSpeaking (run ?play x)" for x
    using cases by (auto simp: run_Cons run_Nil)
  have keep: "\<not> isSpeaking x \<Longrightarrow> \<not> isSpeaking (run ?play x)" for x
    using cases by (auto simp: run_Cons run_Nil)
  have whole: "chatHistory (run (handleSendMessage (ChatResponse t) synth s) s) =
              chatHistory s @ [\<lparr>role = User, content = userInput s\<rparr>, \<lparr>role = Model, content = t\<rparr>]
            \<and> \<not> isSpeaking (run (handleSendMessage (ChatResponse t) synth s) s)
            \<and> sources_started (handleSendMessage (ChatResponse t) synth s) = []"
    if accepted: "trim (userInput s) \<noteq> []" "\<not> isLoading s" "chat s \<noteq> None" "\<not> isSpeaking s"
  proof -
    let ?pre = "[PreventDefault, AppendChatHistory \<lparr>role = User, content = userInput s\<rparr>, SetUserInput [],
            SetIsLoading True, SendMessage (userInput s), AppendChatHistory \<lparr>role = Model, content = t\<rparr>]"
    have acts: "handleSendMessage (ChatResponse t) synth s = ?pre @ ?play @ [SetIsLoading False]"
      by (rule handleSendMessage_accepted_reply [OF accepted])
    have pre: "chatHistory (run ?pre s) =
        chatHistory s @ [\<lparr>role = User, content = userInput s\<rparr>, \<lparr>role = Model, content = t\<rparr>]"
      "\<not> isSpeaking (run ?pre s)"
      using accepted(4) by (simp_all add: run_Cons run_Nil)
    have fin: "run (handleSendMessage (ChatResponse t) synth s) s = (run ?play (run ?pre s))\<lparr>isLoading := False\<rparr>"
      unfolding acts by (simp add: run_append run_Cons run_Nil)
    show ?thesis
      unfolding fin using frame [of "run ?pre s"] keep [OF pre(2)] pre(1) silent
      by (simp add: acts sources_started_append)
  qed
  from silent frame [of st] off [of st] whole show ?thesis
    by blast
qed

theorem synthesis_failure_is_silent_witness:
  "GenerateContent (js ''ok'') \<in> set (playAudioResponse SynthRejected (typed (js ''hola'')) (js ''ok''))
   \<and> trim (userInput (typed (js ''hola''))) \<noteq> []
   \<and> sources_started (playAudioResponse SynthRejected (typed (js ''hola'')) (js ''ok'')) = []
   \<and> \<not> isSpeaking (run (playAudioResponse SynthRejected (typed (js ''hola'')) (js ''ok''))
          ((typed (js ''hola''))\<lparr>isSpeaking := True\<rparr>))
   \<and> chatHistory (run (handleSendMessage (ChatResponse (js ''ok'')) SynthRejected (typed (js ''hola''))) (typed (js ''hola''))) =
        [\<lparr>role = Model, content = greeting\<rparr>, \<lparr>role = User, content = js ''hola''\<rparr>,
         \<lparr>role = Model, content = js ''ok''\<rparr>]
   \<and> \<not> isSpeaking (run (handleSendMessage (ChatResponse (js ''ok'')) SynthRejected (typed (js ''hola''))) (typed (js ''hola'')))"
proof -
  let ?s = "typed (js ''hola'')"
  have st: "userInput ?s = js ''hola''" "\<not> isLoading ?s" "chat ?s \<noteq> None" "\<not> isSpeaking ?s"
      "chatHistory ?s = [\<lparr>role = Model, content = greeting\<rparr>]"
      "aiRef ?s \<noteq> None" "audioContextRef ?s \<noteq> None"
    by (simp_all add: typed_eq)
  have tr: "trim (userInput ?s) \<noteq> []"
    using trim_hola st(1) by simp
  have req: "GenerateContent (js ''ok'') \<in> set (playAudioResponse SynthRejected ?s (js ''ok''))"
    unfolding playAudioResponse_def using st by simp
  from synthesis_failure_is_silent [of SynthRejected ?s "js ''ok''" "?s\<lparr>isSpeaking := True\<rparr>"]
    req tr st
  show ?thesis by simp
qed

section \<open>The end of a capture\<close>

text \<open>
  C4. The dictation on a card where everything initialised: the two finalised segments
  are concatenated into the pending input, in order, and \<open>isListening\<close> is cleared; but
  \<open>requestSubmit\<close> is not called and no message is sent, so the transcript is still the
  greeting alone. The \<open>onend\<close> handler tests the \<open>userInput\<close> its closure captured at
  mount, the empty string (\<open>onend_never_requests_submit\<close>: on every reachable card).
\<close>

theorem capture_end_does_not_submit:
  "userInput (exec dictation (mount working_platform)) = js ''hola mundo''
   \<and> \<not> isListening (exec dictation (mount working_platform))
   \<and> RequestSubmit \<notin> set (exec_log dictation (mount working_platform))
   \<and> sent_messages (exec_log dictation (mount working_platform)) = []
   \<and> chatHistory (exec dictation (mount working_platform)) = [\<lparr>role = Model, content = greeting\<rparr>]"
  by (simp add: dictation_def exec_Cons exec_Nil step_def dispatch_def chat_tab_in chat_tab_eq
      mount_working run_Cons run_Nil formRef_current_def content_pane_def input_disabled_def
      handleMicClick_def recognition_onresult_def recognition_onend_def onresult_loop.simps
      trim_Nil js_Cons js_Nil)

section \<open>Decoding the audio payload\<close>

text \<open>
  C6, for a payload that holds a sample. Let \<open>base64\<close> encode a payload of \<open>2 * N\<close>
  bytes with \<open>N\<close> at least one, that is, \<open>atob\<close> returns the payload's binary string.
  Then \<open>decode\<close> returns the payload's bytes, and \<open>decodeAudioData\<close> on them, with one
  channel, returns a buffer whose single channel has \<open>N\<close> samples; sample \<open>i\<close> is the \<open>i\<close>-th
  16-bit element read as a signed integer, over 32768, which is the value of the
  reference de-interleave computed on integers from the bytes \<open>2i\<close> and \<open>2i+1\<close>, and lies
  in \<open>[-1, 1)\<close>.
\<close>

theorem decoded_samples_normalised:
  assumes enc: "atob base64 = Inr (map ucast payload)"
      and len: "length payload = 2 * N"
      and pos: "0 < N"
  shows "\<exists>samples. decode base64 = Inr payload
           \<and> decodeAudioData payload 24000 1 = Inr [samples]
           \<and> length samples = N
           \<and> (\<forall>i<N. samples ! i = real_of_int (sint (int16_elements payload ! i)) / 32768
                    \<and> samples ! i = reference_sample payload i
                    \<and> - 1 \<le> samples ! i \<and> samples ! i < 1)"
proof -
  let ?v = "\<lambda>k. real_of_int (sint (int16_elements payload ! k)) / 32768"
  let ?samples = "map ?v [0..<N]"
  have bytes: "decode base64 = Inr payload"
    using decode_eq [OF enc] by (simp add: ucast_byte comp_def)
  have buffer: "decodeAudioData payload 24000 1 = Inr [?samples]"
    by (rule decodeAudioData_mono [OF len pos]) simp
  have each: "?samples ! i = ?v i \<and> ?samples ! i = reference_sample payload i
      \<and> - 1 \<le> ?samples ! i \<and> ?samples ! i < 1" if "i < N" for i
  proof -
    have nth: "?samples ! i = ?v i"
      using that by simp
    have ref: "?v i = reference_sample payload i"
      using that len by (intro sample_is_reference) simp
    have "- 1 \<le> ?v i" "?v i < 1"
      using sint_16_range [of "int16_elements payload ! i"] by (simp_all del: of_int_sint)
    with nth ref show ?thesis
      by simp
  qed
  have "length ?samples = N"
    by simp
  with bytes buffer each show ?thesis
    by blast
qed

theorem decoded_samples_normalised_witness:
  "atob (js ''AAD/fwCA'') = Inr (map ucast [0, 0, 0xFF, 0x7F, 0, 0x80 :: 8 word])
   \<and> length [0, 0, 0xFF, 0x7F, 0, 0x80 :: 8 word] = 2 * 3 \<and> 0 < (3 :: nat)
   \<and> decode (js ''AAD/fwCA'') = Inr [0, 0, 0xFF, 0x7F, 0, 0x80]
   \<and> decodeAudioData [0, 0, 0xFF, 0x7F, 0, 0x80] 24000 1 = Inr [[0, 32767 / 32768, - 1]]
   \<and> reference_sample [0, 0, 0xFF, 0x7F, 0, 0x80] 1 = 32767 / 32768
   \<and> reference_sample [0, 0, 0xFF, 0x7F, 0, 0x80] 2 = - 1"
proof -
  have enc: "atob (js ''AAD/fwCA'') = Inr (map ucast [0, 0, 0xFF, 0x7F, 0, 0x80 :: 8 word])"
    by (simp add: atob_example)
  have len: "length [0, 0, 0xFF, 0x7F, 0, 0x80 :: 8 word] = 2 * 3"
    by simp
  have pos: "0 < (3 :: nat)"
    by simp
  from decoded_samples_normalised [OF enc len pos] obtain samples
    where dec: "decode (js ''AAD/fwCA'') = Inr [0, 0, 0xFF, 0x7F, 0, 0x80]"
      and buf: "decodeAudioData [0, 0, 0xFF, 0x7F, 0, 0x80] 24000 1 = Inr [samples]"
      and ref: "\<forall>i<3. samples ! i = reference_sample [0, 0, 0xFF, 0x7F, 0, 0x80] i"
    by blast
  from buf have samples: "samples = [0, 32767 / 32768, - 1]"
    by (simp add: decodeAudioData_example del: One_nat_def)
  from ref have "samples ! 1 = reference_sample [0, 0, 0xFF, 0x7F, 0, 0x80] 1"
    "samples ! 2 = reference_sample [0, 0, 0xFF, 0x7F, 0, 0x80] 2"
    by simp_all
  with samples have "reference_sample [0, 0, 0xFF, 0x7F, 0, 0x80] 1 = 32767 / 32768"
    "reference_sample [0, 0, 0xFF, 0x7F, 0, 0x80] 2 = - 1"
    by simp_all
  with enc dec buf samples show ?thesis
    by simp
qed

text \<open>
  C6 as claimed, for every \<open>N\<close>, fails at the payload of no samples: the empty string
  decodes to no bytes, \<open>createBuffer\<close> is asked for a buffer of no frames and raises, and
  \<open>decodeAudioData\<close> returns no buffer. A payload of white space only reaches this through
  \<open>playAudioResponse\<close>, which ends in its \<open>catch\<close>.
\<close>

theorem empty_payload_counterexample:
  "atob [] = Inr (map ucast ([] :: 8 word list))
   \<and> length ([] :: 8 word list) = 2 * 0
   \<and> decode [] = Inr []
   \<and> decodeAudioData [] 24000 1 = Inl NotSupportedError
   \<and> decode (js '' '') = Inr []
   \<and> playAudioResponse (SynthResponse (Some (js '' ''))) (typed (js ''hola'')) (js ''ok'') =
       [SetIsSpeaking True, GenerateContent (js ''ok''), ConsoleError, SetIsSpeaking False]"
proof -
  have empty: "atob [] = Inr []"
    by (simp add: atob_def b64_strip_padding_def)
  have blank: "atob (js '' '') = Inr []"
    by (simp add: js_Cons js_Nil atob_def b64_strip_padding_def b64_whitespace_def)
  have bytes: "decode [] = Inr []" "decode (js '' '') = Inr []"
    by (simp_all add: decode_def empty blank decode_loop.simps)
  have none: "decodeAudioData [] 24000 1 = Inl NotSupportedError"
    by (simp add: decodeAudioData_def Int16Array_def createBuffer_def)
  have payload: "js '' '' \<noteq> []"
    by (simp add: js_Cons)
  have play: "playAudioResponse (SynthResponse (Some (js '' ''))) (typed (js ''hola'')) (js ''ok'') =
       [SetIsSpeaking True, GenerateContent (js ''ok''), ConsoleError, SetIsSpeaking False]"
    unfolding playAudioResponse_def using typed_hola(5,6) payload
    by (simp add: bytes none del: One_nat_def)
  from empty bytes none play show ?thesis
    by simp
qed

end
